theory Spec2Isabelle
  imports Main
begin

section \<open>Data model of the rule \<open>match-document-filename\<close>\<close>

text \<open>
  The six style names of \<open>CASE_STYLES\<close>: the five of \<open>utils\<close> (\<open>_CaseStyle\<close>) and
  \<open>'matchDocumentStyle'\<close>, which the rule adds.
\<close>

datatype CaseStyle =
    camelCase
  | PascalCase
  | snake_case
  | UPPER_CASE
  | kebab_case
  | matchDocumentStyle

text \<open>\<open>ACCEPTED_EXTENSIONS\<close>: the type of the option \<open>fileExtension\<close> has two values.\<close>

datatype AcceptedExtension = gql | graphql

fun extension_string :: "AcceptedExtension \<Rightarrow> string" where
  "extension_string gql = ''.gql''"
| "extension_string graphql = ''.graphql''"

record PropertySchema =
  style :: "CaseStyle option"
  suffix :: "string option"
  prefix :: "string option"

text \<open>An option of one document type is a bare style name or an object.\<close>

datatype StyleOption = AsString CaseStyle | AsObject PropertySchema

record MatchDocumentFilenameRuleConfig =
  fileExtension :: "AcceptedExtension option"
  query :: "StyleOption option"
  mutation :: "StyleOption option"
  subscription :: "StyleOption option"
  fragment :: "StyleOption option"

text \<open>
  The definitions of a document. The rule reads the kind of a definition, the name of an
  operation or fragment and the operation type; every other kind of definition (a type
  definition, a schema extension, ...) is \<open>OtherDefinition\<close>.
\<close>

datatype OperationTypeNode = QUERY | MUTATION | SUBSCRIPTION

datatype DefinitionNode =
    OperationDefinition OperationTypeNode "string option"
  | FragmentDefinition string
  | OtherDefinition

datatype Kind = OPERATION_DEFINITION | FRAGMENT_DEFINITION | OTHER_KIND

fun kind :: "DefinitionNode \<Rightarrow> Kind" where
  "kind (OperationDefinition _ _) = OPERATION_DEFINITION"
| "kind (FragmentDefinition _) = FRAGMENT_DEFINITION"
| "kind OtherDefinition = OTHER_KIND"

text \<open>\<open>node.name?.value\<close>: an anonymous operation has no name.\<close>

fun name_value :: "DefinitionNode \<Rightarrow> string option" where
  "name_value (OperationDefinition _ n) = n"
| "name_value (FragmentDefinition n) = Some n"
| "name_value OtherDefinition = None"

datatype DocType = query_type | mutation_type | subscription_type | fragment_type

text \<open>\<open>'operation' in node ? node.operation : 'fragment'\<close>\<close>

fun docType :: "DefinitionNode \<Rightarrow> DocType" where
  "docType (OperationDefinition QUERY _) = query_type"
| "docType (OperationDefinition MUTATION _) = mutation_type"
| "docType (OperationDefinition SUBSCRIPTION _) = subscription_type"
| "docType _ = fragment_type"

text \<open>\<open>options[docType]\<close>\<close>

fun options_at :: "MatchDocumentFilenameRuleConfig \<Rightarrow> DocType \<Rightarrow> StyleOption option" where
  "options_at options query_type = query options"
| "options_at options mutation_type = mutation options"
| "options_at options subscription_type = subscription options"
| "options_at options fragment_type = fragment options"

subsection \<open>Diagnostics\<close>

datatype MessageId = MATCH_EXTENSION | MATCH_STYLE

text \<open>
  Modelled from the spec: the constant \<open>REPORT_ON_FIRST_CHARACTER\<close> is imported from
  \<open>utils\<close>, which is not among the sources; the spec says that diagnostics are anchored at
  the document's first character. A location has a start position, with a line and a
  column that count from 1.
\<close>

record Position =
  line :: nat
  column :: nat

record Location =
  start :: Position

definition REPORT_ON_FIRST_CHARACTER :: Location where
  "REPORT_ON_FIRST_CHARACTER = \<lparr>start = \<lparr>line = 1, column = 1\<rparr>\<rparr>"

text \<open>The argument of \<open>context.report\<close>; \<open>data\<close> keeps the keys in the order written.\<close>

record Report =
  loc :: Location
  messageId :: MessageId
  data :: "(string \<times> string) list"

section \<open>The visitor \<open>Document\<close>\<close>

text \<open>\<open>x || ''\<close> on an optional string: an unset value and the empty string both give \<open>''\<close>.\<close>

fun or_empty :: "string option \<Rightarrow> string" where
  "or_empty None = []"
| "or_empty (Some s) = s"

text \<open>\<open>options.fileExtension || fileExtension\<close>; both accepted extensions are non-empty.\<close>

definition expectedExtension :: "MatchDocumentFilenameRuleConfig \<Rightarrow> string \<Rightarrow> string" where
  "expectedExtension options file_ext =
     (case fileExtension options of Some e \<Rightarrow> extension_string e | None \<Rightarrow> file_ext)"

text \<open>The first check of the visitor: the report of a wrong extension, if any.\<close>

definition extension_reports :: "MatchDocumentFilenameRuleConfig \<Rightarrow> string \<Rightarrow> Report list" where
  "extension_reports options file_ext =
     (case fileExtension options of
        None \<Rightarrow> []
      | Some e \<Rightarrow>
          if extension_string e \<noteq> file_ext
          then [\<lparr>loc = REPORT_ON_FIRST_CHARACTER, messageId = MATCH_EXTENSION,
                 data = [(''fileExtension'', file_ext),
                         (''expectedFileExtension'', extension_string e)]\<rparr>]
          else [])"

text \<open>\<open>definitions.find(n => n.kind === Kind.OPERATION_DEFINITION)\<close> and its sibling.\<close>

definition firstOperation :: "DefinitionNode list \<Rightarrow> DefinitionNode option" where
  "firstOperation definitions = List.find (\<lambda>n. kind n = OPERATION_DEFINITION) definitions"

definition firstFragment :: "DefinitionNode list \<Rightarrow> DefinitionNode option" where
  "firstFragment definitions = List.find (\<lambda>n. kind n = FRAGMENT_DEFINITION) definitions"

text \<open>\<open>const node = firstOperation || firstFragment\<close>: a node found is an object, so truthy.\<close>

definition governing_node :: "DefinitionNode list \<Rightarrow> DefinitionNode option" where
  "governing_node definitions =
     (case firstOperation definitions of
        Some n \<Rightarrow> Some n
      | None \<Rightarrow> firstFragment definitions)"

text \<open>\<open>if (typeof option === 'string') option = { style: option }\<close>\<close>

fun normalize_option :: "StyleOption \<Rightarrow> PropertySchema" where
  "normalize_option (AsString s) = \<lparr>style = Some s, suffix = None, prefix = None\<rparr>"
| "normalize_option (AsObject p) = p"

text \<open>
  The expected filename, built as the source builds it: the prefix, then the styled name
  or the file's own basename, then the suffix and the extension. The function
  \<open>convertCase\<close> of \<open>utils\<close> is a parameter.
\<close>

definition expectedFilename ::
  "(CaseStyle \<Rightarrow> string \<Rightarrow> string) \<Rightarrow> MatchDocumentFilenameRuleConfig \<Rightarrow> PropertySchema
     \<Rightarrow> string \<Rightarrow> string \<Rightarrow> string \<Rightarrow> string" where
  "expectedFilename convertCase options option filename file_ext docName =
     (let e0 = or_empty (prefix option);
          e1 = (case style option of
                  Some s \<Rightarrow> e0 @ (if s = matchDocumentStyle then docName else convertCase s docName)
                | None \<Rightarrow> e0 @ filename)
      in e1 @ (or_empty (suffix option) @ expectedExtension options file_ext))"

text \<open>The second check: the report of a filename that is not the expected one, if any.\<close>

definition style_reports ::
  "(CaseStyle \<Rightarrow> string \<Rightarrow> string) \<Rightarrow> MatchDocumentFilenameRuleConfig \<Rightarrow> string \<Rightarrow> string
     \<Rightarrow> DefinitionNode list \<Rightarrow> Report list" where
  "style_reports convertCase options filename file_ext definitions =
     (case governing_node definitions of
        None \<Rightarrow> []
      | Some node \<Rightarrow>
          (case name_value node of
             None \<Rightarrow> []
           | Some docName \<Rightarrow>
               if docName = [] then []
               else
                 (case options_at options (docType node) of
                    None \<Rightarrow> []
                  | Some opt \<Rightarrow>
                      (let option = normalize_option opt;
                           expected = expectedFilename convertCase options option
                                        filename file_ext docName;
                           filenameWithExtension = filename @ expectedExtension options file_ext
                       in if expected \<noteq> filenameWithExtension
                          then [\<lparr>loc = REPORT_ON_FIRST_CHARACTER, messageId = MATCH_STYLE,
                                 data = [(''expectedFilename'', expected),
                                         (''filename'', filenameWithExtension)]\<rparr>]
                          else []))))"

text \<open>
  The visitor: the reports of one pass over a document, in the order of the calls of
  \<open>context.report\<close>. Its inputs are the options, the basename and extension of the file
  (\<open>basename(filePath, extname(filePath))\<close> and \<open>extname(filePath)\<close>) and the definitions
  of the document.
\<close>

definition Document ::
  "(CaseStyle \<Rightarrow> string \<Rightarrow> string) \<Rightarrow> MatchDocumentFilenameRuleConfig \<Rightarrow> string \<Rightarrow> string
     \<Rightarrow> DefinitionNode list \<Rightarrow> Report list" where
  "Document convertCase options filename file_ext definitions =
     extension_reports options file_ext
       @ style_reports convertCase options filename file_ext definitions"

section \<open>Case conversion\<close>

text \<open>
  The function \<open>convertCase\<close> is imported from \<open>utils\<close>, which is not among the sources:
  this section models it, with its auxiliary functions, from the specification.
\<close>

text \<open>
  Modelled from the spec: the letters of the case conversion of \<open>utils\<close>, the ASCII
  letters, which are the only ones a GraphQL name has.
\<close>

definition is_upper :: "char \<Rightarrow> bool" where
  "is_upper c \<longleftrightarrow> (65::nat) \<le> of_char c \<and> of_char c \<le> (90::nat)"

definition is_lower :: "char \<Rightarrow> bool" where
  "is_lower c \<longleftrightarrow> (97::nat) \<le> of_char c \<and> of_char c \<le> (122::nat)"

definition to_lower :: "char \<Rightarrow> char" where
  "to_lower c = (if is_upper c then char_of (of_char c + (32::nat)) else c)"

definition to_upper :: "char \<Rightarrow> char" where
  "to_upper c = (if is_lower c then char_of (of_char c - (32::nat)) else c)"

text \<open>
  Modelled from the spec: the characters on which the case conversion of \<open>utils\<close> splits
  a name, \<open>_\<close>, \<open>-\<close> and \<open>.\<close>
\<close>

definition is_separator :: "char \<Rightarrow> bool" where
  "is_separator c \<longleftrightarrow> c = CHR ''_'' \<or> c = CHR ''-'' \<or> c = CHR ''.''"

text \<open>
  Modelled from the spec: the case boundaries of the case conversion of \<open>utils\<close>. A
  case boundary lies before the upper-case letter \<open>c\<close> that follows the word \<open>cur\<close> read
  so far and precedes the rest \<open>cs\<close>: either \<open>cur\<close> ends in a lower-case letter
  (lower-to-upper), or \<open>cur\<close> ends in an upper-case letter and \<open>c\<close> starts a word whose
  next letter is lower-case (the end of an acronym, as in \<open>HTTPServer\<close>).
\<close>

fun case_boundary :: "string \<Rightarrow> char \<Rightarrow> string \<Rightarrow> bool" where
  "case_boundary cur c cs \<longleftrightarrow>
     cur \<noteq> [] \<and> is_upper c \<and>
     (is_lower (last cur) \<or> (is_upper (last cur) \<and> cs \<noteq> [] \<and> is_lower (hd cs)))"

text \<open>
  Modelled from the spec: a word token of the case conversion of \<open>utils\<close> is not empty;
  a word that has been read is kept unless it is empty.
\<close>

fun flush :: "string \<Rightarrow> string list" where
  "flush cur = (if cur = [] then [] else [cur])"

text \<open>
  Modelled from the spec: the word segmentation of \<open>convertCase\<close> (the function is
  imported from \<open>utils\<close>, which is not among the sources). The name is split into word
  tokens on case boundaries and on the separators, which are dropped.
\<close>

fun split_words :: "string \<Rightarrow> string \<Rightarrow> string list" where
  "split_words cur [] = flush cur"
| "split_words cur (c # cs) =
     (if is_separator c then flush cur @ split_words [] cs
      else if case_boundary cur c cs then flush cur @ split_words [c] cs
      else split_words (cur @ [c]) cs)"

text \<open>
  Modelled from the spec: the word tokens of a name and the case of a word in the case
  conversion of \<open>utils\<close>.
\<close>

definition words_of :: "string \<Rightarrow> string list" where
  "words_of name = split_words [] name"

definition lowercased :: "string \<Rightarrow> string" where
  "lowercased w = map to_lower w"

definition uppercased :: "string \<Rightarrow> string" where
  "uppercased w = map to_upper w"

text \<open>
  Modelled from the spec: a capitalized word of the case conversion of \<open>utils\<close> has its
  first letter in upper case, the others in lower case. The
  rule's documentation has the example of \<open>mutation DELETE_USER\<close> under
  \<open>{style: 'PascalCase', suffix: 'Mutation'}\<close> in the file \<open>DeleteUserMutation.gql\<close>:
  a run of upper-case letters is one word, and capitalizing it lower-cases its tail.
\<close>

fun capitalized :: "string \<Rightarrow> string" where
  "capitalized [] = []"
| "capitalized (c # cs) = to_upper c # map to_lower cs"

text \<open>
  Modelled from the spec: the joining of words in the case conversion of \<open>utils\<close>, with
  a separator between two neighbours.
\<close>

fun join :: "string \<Rightarrow> string list \<Rightarrow> string" where
  "join sep [] = []"
| "join sep [w] = w"
| "join sep (w # v # ws) = w @ sep @ join sep (v # ws)"

text \<open>
  Modelled from the spec: \<open>convertCase\<close> of \<open>utils\<close>, which is not among the sources. The
  words of the name are re-joined per style; \<open>matchDocumentStyle\<close> is the identity.
\<close>

fun convertCase :: "CaseStyle \<Rightarrow> string \<Rightarrow> string" where
  "convertCase camelCase name =
     (case words_of name of
        [] \<Rightarrow> []
      | w # ws \<Rightarrow> lowercased w @ concat (map capitalized ws))"
| "convertCase PascalCase name = concat (map capitalized (words_of name))"
| "convertCase snake_case name = join ''_'' (map lowercased (words_of name))"
| "convertCase UPPER_CASE name = join ''_'' (map uppercased (words_of name))"
| "convertCase kebab_case name = join ''-'' (map lowercased (words_of name))"
| "convertCase matchDocumentStyle name = name"

declare convertCase.simps [simp del]
declare case_boundary.simps [simp del]
declare flush.simps [simp del]

section \<open>Properties of the visitor\<close>

subsection \<open>Auxiliary facts\<close>

lemma find_append_first:
  "P n \<Longrightarrow> \<forall>m\<in>set pre. \<not> P m \<Longrightarrow> List.find P (pre @ n # post) = Some n"
  by (induction pre) simp_all

lemma find_none: "\<forall>m\<in>set xs. \<not> P m \<Longrightarrow> List.find P xs = None"
  by (simp add: find_None_iff)

lemma filter_extension_reports:
  "filter (\<lambda>r. messageId r = MATCH_EXTENSION) (extension_reports options file_ext) = extension_reports options file_ext"
  "filter (\<lambda>r. messageId r = MATCH_STYLE) (extension_reports options file_ext) = []"
  by (auto simp: extension_reports_def split: option.splits)

lemma filter_style_reports:
  "filter (\<lambda>r. messageId r = MATCH_STYLE) (style_reports conv options filename file_ext definitions) = style_reports conv options filename file_ext definitions"
  "filter (\<lambda>r. messageId r = MATCH_EXTENSION) (style_reports conv options filename file_ext definitions) = []"
  by (auto simp: style_reports_def Let_def split: option.splits)

lemma length_extension_reports: "length (extension_reports options file_ext) \<le> 1"
  by (simp add: extension_reports_def split: option.splits)

lemma length_style_reports: "length (style_reports conv options filename file_ext definitions) \<le> 1"
  by (simp add: style_reports_def Let_def split: option.splits)

lemma loc_extension_reports:
  "r \<in> set (extension_reports options file_ext) \<Longrightarrow> loc r = REPORT_ON_FIRST_CHARACTER"
  by (auto simp: extension_reports_def split: option.splits if_splits)

lemma loc_style_reports:
  "r \<in> set (style_reports conv options filename file_ext definitions) \<Longrightarrow> loc r = REPORT_ON_FIRST_CHARACTER"
  by (auto simp: style_reports_def Let_def split: option.splits if_splits)

lemma style_reports_classified:
  assumes "governing_node definitions = Some node"
    and "name_value node = Some docName"
    and "docName \<noteq> []"
    and "options_at options (docType node) = Some opt"
  shows "style_reports conv options filename file_ext definitions =
     (if expectedFilename conv options (normalize_option opt) filename file_ext docName
           \<noteq> filename @ expectedExtension options file_ext
      then [\<lparr>loc = REPORT_ON_FIRST_CHARACTER, messageId = MATCH_STYLE,
             data = [(''expectedFilename'',
                        expectedFilename conv options (normalize_option opt) filename file_ext docName),
                     (''filename'', filename @ expectedExtension options file_ext)]\<rparr>]
      else [])"
  using assms by (simp add: style_reports_def Let_def)

lemma governing_node_none:
  assumes "\<forall>d\<in>set definitions. kind d \<noteq> OPERATION_DEFINITION \<and> kind d \<noteq> FRAGMENT_DEFINITION"
  shows "governing_node definitions = None"
proof -
  have "firstOperation definitions = None"
    unfolding firstOperation_def using assms by (intro find_none) simp
  moreover have "firstFragment definitions = None"
    unfolding firstFragment_def using assms by (intro find_none) simp
  ultimately show ?thesis by (simp add: governing_node_def)
qed

subsection \<open>The style check\<close>

text \<open>
  Claim C1, as amended. For a document whose governing definition has a name and whose
  document type has a configured policy, the style check compares the expected filename
  with the basename followed by the effective extension (the configured \<open>fileExtension\<close>
  when there is one, the file's own extension otherwise). Exactly when the two strings
  differ, one \<open>MATCH_STYLE\<close> report is made; its parameter \<open>filename\<close> is the basename
  followed by the effective extension and its parameter \<open>expectedFilename\<close> is the expected
  filename.
\<close>

theorem style_check_effective_extension:
  assumes "governing_node definitions = Some node"
    and "name_value node = Some docName"
    and "docName \<noteq> []"
    and "options_at options (docType node) = Some opt"
  shows "filter (\<lambda>r. messageId r = MATCH_STYLE)
           (Document conv options filename file_ext definitions) =
     (if expectedFilename conv options (normalize_option opt) filename file_ext docName
           \<noteq> filename @ expectedExtension options file_ext
      then [\<lparr>loc = REPORT_ON_FIRST_CHARACTER, messageId = MATCH_STYLE,
             data = [(''expectedFilename'',
                        expectedFilename conv options (normalize_option opt) filename file_ext docName),
                     (''filename'', filename @ expectedExtension options file_ext)]\<rparr>]
      else [])"
proof -
  have "filter (\<lambda>r. messageId r = MATCH_STYLE)
          (Document conv options filename file_ext definitions)
        = style_reports conv options filename file_ext definitions"
    unfolding Document_def
    by (simp only: filter_append filter_extension_reports filter_style_reports append_Nil)
  then show ?thesis
    by (simp only: style_reports_classified [OF assms])
qed

text \<open>Scenario D of the specification, through the theorem.\<close>

theorem style_check_effective_extension_witness:
  "filter (\<lambda>r. messageId r = MATCH_STYLE)
     (Document convertCase
        \<lparr>fileExtension = None, query = Some (AsString PascalCase),
         mutation = None, subscription = None, fragment = None\<rparr>
        ''user-by-id'' ''.gql'' [OperationDefinition QUERY (Some ''UserById'')])
   = [\<lparr>loc = REPORT_ON_FIRST_CHARACTER, messageId = MATCH_STYLE,
       data = [(''expectedFilename'', ''UserById.gql''), (''filename'', ''user-by-id.gql'')]\<rparr>]"
proof -
  let ?options = "\<lparr>fileExtension = None, query = Some (AsString PascalCase),
         mutation = None, subscription = None, fragment = None\<rparr>"
  let ?node = "OperationDefinition QUERY (Some ''UserById'')"
  have g: "governing_node [?node] = Some ?node"
    by (simp add: governing_node_def firstOperation_def)
  have n: "name_value ?node = Some ''UserById''" by simp
  have e: "''UserById'' \<noteq> []" by simp
  have p: "options_at ?options (docType ?node) = Some (AsString PascalCase)" by simp
  have x: "expectedFilename convertCase ?options (normalize_option (AsString PascalCase))
             ''user-by-id'' ''.gql'' ''UserById'' = ''UserById.gql''"
    by code_simp
  have y: "''user-by-id'' @ expectedExtension ?options ''.gql'' = ''user-by-id.gql''"
    by (simp add: expectedExtension_def)
  show ?thesis
    using style_check_effective_extension [OF g n e p,
        of convertCase "''user-by-id''" "''.gql''"]
    unfolding x y by simp
qed

text \<open>
  With \<open>fileExtension: '.graphql'\<close> and the file \<open>UserById.gql\<close>, the expected filename
  \<open>UserById.graphql\<close> differs from the basename followed by the file's own extension, and
  yet no \<open>MATCH_STYLE\<close> report is made: the comparison is with the effective extension.
\<close>

theorem style_check_actual_extension_counterexample:
  "expectedFilename convertCase
      \<lparr>fileExtension = Some graphql, query = Some (AsString matchDocumentStyle),
       mutation = None, subscription = None, fragment = None\<rparr>
      (normalize_option (AsString matchDocumentStyle)) ''UserById'' ''.gql'' ''UserById''
     \<noteq> ''UserById'' @ ''.gql''
   \<and> filter (\<lambda>r. messageId r = MATCH_STYLE)
       (Document convertCase
          \<lparr>fileExtension = Some graphql, query = Some (AsString matchDocumentStyle),
           mutation = None, subscription = None, fragment = None\<rparr>
          ''UserById'' ''.gql'' [OperationDefinition QUERY (Some ''UserById'')]) = []"
  by (simp add: expectedFilename_def expectedExtension_def Document_def extension_reports_def
        style_reports_def governing_node_def firstOperation_def)

text \<open>
  Claim C2. When the policy sets no style, the base of the expected filename is the
  file's own basename, unchanged: the expected filename is the prefix (or nothing), the
  basename, the suffix (or nothing) and the effective extension.
\<close>

theorem unset_style_keeps_basename:
  assumes "style option = None"
  shows "expectedFilename conv options option filename file_ext docName =
     or_empty (prefix option) @ filename @ or_empty (suffix option)
       @ expectedExtension options file_ext"
  using assms by (simp add: expectedFilename_def Let_def)

text \<open>
  The policy \<open>{prefix: 'query.'}\<close> wraps the basename \<open>Query.ME\<close> as it is, with its
  upper-case letters and its dot.
\<close>

theorem unset_style_keeps_basename_witness:
  "expectedFilename convertCase
     \<lparr>fileExtension = None, query = None, mutation = None, subscription = None,
      fragment = Some (AsObject \<lparr>style = None, suffix = None, prefix = Some ''query.''\<rparr>)\<rparr>
     \<lparr>style = None, suffix = None, prefix = Some ''query.''\<rparr>
     ''Query.ME'' ''.graphql'' ''me''
   = ''query.Query.ME.graphql''"
proof -
  have h: "style \<lparr>style = None, suffix = None, prefix = Some ''query.''\<rparr> = None"
    by simp
  show ?thesis
    using unset_style_keeps_basename [OF h, of convertCase _ "''Query.ME''" "''.graphql''" "''me''"]
    by (simp add: expectedExtension_def)
qed

text \<open>
  Claim C5. The expected filename is the prefix (or nothing), the base, the suffix (or
  nothing) and the effective extension, in this order; the effective extension is the
  configured \<open>fileExtension\<close> when one is configured and the file's own extension
  otherwise. The base is the file's basename when no style is set, the document's name
  for \<open>matchDocumentStyle\<close>, and the converted name for the other styles.
\<close>

theorem expectedFilename_composition:
  "expectedFilename conv options option filename file_ext docName =
     (case prefix option of None \<Rightarrow> [] | Some p \<Rightarrow> p)
       @ (case style option of
            None \<Rightarrow> filename
          | Some s \<Rightarrow> if s = matchDocumentStyle then docName else conv s docName)
       @ (case suffix option of None \<Rightarrow> [] | Some s \<Rightarrow> s)
       @ (case fileExtension options of None \<Rightarrow> file_ext | Some e \<Rightarrow> extension_string e)"
  by (simp add: expectedFilename_def expectedExtension_def Let_def split: option.splits)

text \<open>
  Two examples of the rule's documentation: \<open>{style: 'PascalCase', suffix: 'Mutation'}\<close>
  for \<open>DELETE_USER\<close> in a \<open>.gql\<close> file, and a policy with prefix and suffix under a
  configured extension that is not the file's.
\<close>

theorem expectedFilename_composition_witness:
  "expectedFilename convertCase
     \<lparr>fileExtension = None, query = None, mutation = None, subscription = None,
      fragment = None\<rparr>
     \<lparr>style = Some PascalCase, suffix = Some ''Mutation'', prefix = None\<rparr>
     ''whatever'' ''.gql'' ''DELETE_USER''
   = ''DeleteUserMutation.gql''
   \<and> expectedFilename convertCase
     \<lparr>fileExtension = Some graphql, query = None, mutation = None, subscription = None,
      fragment = None\<rparr>
     \<lparr>style = Some kebab_case, suffix = Some ''Mutation'', prefix = Some ''mutation.''\<rparr>
     ''whatever'' ''.gql'' ''addAlert''
   = ''mutation.add-alertMutation.graphql''"
proof -
  have a: "convertCase PascalCase ''DELETE_USER'' = ''DeleteUser''" by code_simp
  have b: "convertCase kebab_case ''addAlert'' = ''add-alert''" by code_simp
  show ?thesis
    using expectedFilename_composition [of convertCase
        "\<lparr>fileExtension = None, query = None, mutation = None, subscription = None,
          fragment = None\<rparr>"
        "\<lparr>style = Some PascalCase, suffix = Some ''Mutation'', prefix = None\<rparr>"
        "''whatever''" "''.gql''" "''DELETE_USER''"]
      expectedFilename_composition [of convertCase
        "\<lparr>fileExtension = Some graphql, query = None, mutation = None, subscription = None,
          fragment = None\<rparr>"
        "\<lparr>style = Some kebab_case, suffix = Some ''Mutation'', prefix = Some ''mutation.''\<rparr>"
        "''whatever''" "''.gql''" "''addAlert''"]
    by (simp add: a b)
qed

text \<open>
  Claim C8. Under \<open>matchDocumentStyle\<close> the base of the expected filename is the
  document's name as it is written, whatever the case converter does with names; the
  fallback of an unset style keeps the file's basename instead.
\<close>

theorem matchDocumentStyle_keeps_document_name:
  assumes "style option = Some matchDocumentStyle"
  shows "expectedFilename conv options option filename file_ext docName =
     or_empty (prefix option) @ docName @ or_empty (suffix option)
       @ expectedExtension options file_ext"
  using assms by (simp add: expectedFilename_def Let_def)

text \<open>
  The name \<open>get_UserByID\<close> is kept letter for letter, with a converter that would
  rewrite it, and is not the basename \<open>some-file\<close>.
\<close>

theorem matchDocumentStyle_keeps_document_name_witness:
  "expectedFilename convertCase
     \<lparr>fileExtension = None, query = Some (AsString matchDocumentStyle), mutation = None,
      subscription = None, fragment = None\<rparr>
     \<lparr>style = Some matchDocumentStyle, suffix = None, prefix = None\<rparr>
     ''some-file'' ''.gql'' ''get_UserByID''
   = ''get_UserByID.gql''"
proof -
  have h: "style \<lparr>style = Some matchDocumentStyle, suffix = None, prefix = None\<rparr>
             = Some matchDocumentStyle"
    by simp
  show ?thesis
    using matchDocumentStyle_keeps_document_name [OF h, of convertCase _
        "''some-file''" "''.gql''" "''get_UserByID''"]
    by (simp add: expectedExtension_def)
qed

subsection \<open>The governing definition\<close>

text \<open>
  Claim C3. The governing definition is the first operation definition of the document
  if there is one, and the first fragment definition otherwise: a definition \<open>n\<close> at some
  position is selected when it is an operation with no operation before it, or when it
  is a fragment with no fragment before it and the document has no operation at all. An
  operation is selected whatever fragments come before it.
\<close>

theorem governing_node_first_operation_else_first_fragment:
  assumes "definitions = pre @ n # post"
    and "(kind n = OPERATION_DEFINITION \<and> (\<forall>m\<in>set pre. kind m \<noteq> OPERATION_DEFINITION))
       \<or> (kind n = FRAGMENT_DEFINITION \<and> (\<forall>m\<in>set pre. kind m \<noteq> FRAGMENT_DEFINITION)
            \<and> (\<forall>m\<in>set definitions. kind m \<noteq> OPERATION_DEFINITION))"
  shows "governing_node definitions = Some n"
  using assms(2)
proof
  assume "kind n = OPERATION_DEFINITION \<and> (\<forall>m\<in>set pre. kind m \<noteq> OPERATION_DEFINITION)"
  then have "firstOperation definitions = Some n"
    unfolding firstOperation_def assms(1) by (intro find_append_first) simp_all
  then show ?thesis by (simp add: governing_node_def)
next
  assume a: "kind n = FRAGMENT_DEFINITION \<and> (\<forall>m\<in>set pre. kind m \<noteq> FRAGMENT_DEFINITION)
            \<and> (\<forall>m\<in>set definitions. kind m \<noteq> OPERATION_DEFINITION)"
  then have "firstOperation definitions = None"
    unfolding firstOperation_def by (intro find_none) simp
  moreover from a have "firstFragment definitions = Some n"
    unfolding firstFragment_def assms(1) by (intro find_append_first) simp_all
  ultimately show ?thesis by (simp add: governing_node_def)
qed

text \<open>
  A fragment, then two operations: the first operation governs. A type definition, then
  two fragments: the first fragment governs.
\<close>

theorem governing_node_first_operation_else_first_fragment_witness:
  "governing_node
     [FragmentDefinition ''UserFields'', OperationDefinition QUERY (Some ''me''),
      OperationDefinition MUTATION (Some ''addAlert'')]
     = Some (OperationDefinition QUERY (Some ''me''))
   \<and> governing_node
       [OtherDefinition, FragmentDefinition ''UserFields'', FragmentDefinition ''AlertFields'']
     = Some (FragmentDefinition ''UserFields'')"
proof -
  have d1: "[FragmentDefinition ''UserFields'', OperationDefinition QUERY (Some ''me''),
             OperationDefinition MUTATION (Some ''addAlert'')]
            = [FragmentDefinition ''UserFields''] @ OperationDefinition QUERY (Some ''me'')
                # [OperationDefinition MUTATION (Some ''addAlert'')]"
    by simp
  have h1: "(kind (OperationDefinition QUERY (Some ''me'')) = OPERATION_DEFINITION
              \<and> (\<forall>m\<in>set [FragmentDefinition ''UserFields'']. kind m \<noteq> OPERATION_DEFINITION))
       \<or> (kind (OperationDefinition QUERY (Some ''me'')) = FRAGMENT_DEFINITION
            \<and> (\<forall>m\<in>set [FragmentDefinition ''UserFields'']. kind m \<noteq> FRAGMENT_DEFINITION)
            \<and> (\<forall>m\<in>set [FragmentDefinition ''UserFields'', OperationDefinition QUERY (Some ''me''),
                 OperationDefinition MUTATION (Some ''addAlert'')]. kind m \<noteq> OPERATION_DEFINITION))"
    by simp
  have d2: "[OtherDefinition, FragmentDefinition ''UserFields'', FragmentDefinition ''AlertFields'']
            = [OtherDefinition] @ FragmentDefinition ''UserFields''
                # [FragmentDefinition ''AlertFields'']"
    by simp
  have h2: "(kind (FragmentDefinition ''UserFields'') = OPERATION_DEFINITION
              \<and> (\<forall>m\<in>set [OtherDefinition]. kind m \<noteq> OPERATION_DEFINITION))
       \<or> (kind (FragmentDefinition ''UserFields'') = FRAGMENT_DEFINITION
            \<and> (\<forall>m\<in>set [OtherDefinition]. kind m \<noteq> FRAGMENT_DEFINITION)
            \<and> (\<forall>m\<in>set [OtherDefinition, FragmentDefinition ''UserFields'',
                 FragmentDefinition ''AlertFields'']. kind m \<noteq> OPERATION_DEFINITION))"
    by simp
  show ?thesis
    using governing_node_first_operation_else_first_fragment [OF d1 h1]
      governing_node_first_operation_else_first_fragment [OF d2 h2]
    by (rule conjI)
qed

text \<open>
  Claim C7. No \<open>MATCH_STYLE\<close> report is made when the governing definition has no name,
  whatever else the document holds, nor when the options have no policy for the document
  type of the governing definition.
\<close>

theorem no_style_report_without_name_or_policy:
  assumes "governing_node definitions = Some node"
    and "name_value node = None \<or> options_at options (docType node) = None"
  shows "filter (\<lambda>r. messageId r = MATCH_STYLE)
           (Document conv options filename file_ext definitions) = []"
proof -
  have "style_reports conv options filename file_ext definitions = []"
    using assms by (auto simp: style_reports_def split: option.splits)
  then show ?thesis
    unfolding Document_def
    by (simp add: filter_extension_reports)
qed

text \<open>
  An anonymous query before a named fragment, with a policy for queries and one for
  fragments that the file does not follow; and a named mutation with policies for the
  three other document types only.
\<close>

theorem no_style_report_without_name_or_policy_witness:
  "filter (\<lambda>r. messageId r = MATCH_STYLE)
     (Document convertCase
        \<lparr>fileExtension = None, query = Some (AsString PascalCase), mutation = None,
         subscription = None, fragment = Some (AsString PascalCase)\<rparr>
        ''wrong-name'' ''.gql''
        [OperationDefinition QUERY None, FragmentDefinition ''UserFields'']) = []
   \<and> filter (\<lambda>r. messageId r = MATCH_STYLE)
     (Document convertCase
        \<lparr>fileExtension = None, query = Some (AsString PascalCase), mutation = None,
         subscription = Some (AsString PascalCase), fragment = Some (AsString PascalCase)\<rparr>
        ''wrong-name'' ''.gql''
        [OperationDefinition MUTATION (Some ''addAlert'')]) = []"
proof -
  let ?o1 = "\<lparr>fileExtension = None, query = Some (AsString PascalCase), mutation = None,
         subscription = None, fragment = Some (AsString PascalCase)\<rparr>"
  let ?o2 = "\<lparr>fileExtension = None, query = Some (AsString PascalCase), mutation = None,
         subscription = Some (AsString PascalCase), fragment = Some (AsString PascalCase)\<rparr>"
  have g1: "governing_node [OperationDefinition QUERY None, FragmentDefinition ''UserFields'']
              = Some (OperationDefinition QUERY None)"
    by (simp add: governing_node_def firstOperation_def)
  have h1: "name_value (OperationDefinition QUERY None) = None
              \<or> options_at ?o1 (docType (OperationDefinition QUERY None)) = None"
    by simp
  have g2: "governing_node [OperationDefinition MUTATION (Some ''addAlert'')]
              = Some (OperationDefinition MUTATION (Some ''addAlert''))"
    by (simp add: governing_node_def firstOperation_def)
  have h2: "name_value (OperationDefinition MUTATION (Some ''addAlert'')) = None
              \<or> options_at ?o2 (docType (OperationDefinition MUTATION (Some ''addAlert''))) = None"
    by simp
  show ?thesis
    using no_style_report_without_name_or_policy [OF g1 h1]
      no_style_report_without_name_or_policy [OF g2 h2]
    by (rule conjI)
qed

text \<open>
  Claim C4, as amended. For a document with no operation definition and no fragment
  definition, no \<open>MATCH_STYLE\<close> report is ever made, whatever the configuration; the
  extension check still runs, so the reports of the pass are exactly those of the
  extension check: one \<open>MATCH_EXTENSION\<close> report when \<open>fileExtension\<close> is configured and
  differs from the file's extension, and none otherwise.
\<close>

theorem no_definition_only_extension_check:
  assumes "\<forall>d\<in>set definitions. kind d \<noteq> OPERATION_DEFINITION \<and> kind d \<noteq> FRAGMENT_DEFINITION"
  shows "Document conv options filename file_ext definitions =
     (case fileExtension options of
        None \<Rightarrow> []
      | Some e \<Rightarrow>
          if extension_string e \<noteq> file_ext
          then [\<lparr>loc = REPORT_ON_FIRST_CHARACTER, messageId = MATCH_EXTENSION,
                 data = [(''fileExtension'', file_ext),
                         (''expectedFileExtension'', extension_string e)]\<rparr>]
          else [])"
  by (simp add: Document_def style_reports_def governing_node_none [OF assms]
        extension_reports_def)

text \<open>
  The first example of the rule's documentation: \<open>fileExtension: '.gql'\<close>, the file
  \<open>user.gql\<close> and a type definition, even with a policy for every document type.
\<close>

theorem no_definition_only_extension_check_witness:
  "Document convertCase
     \<lparr>fileExtension = Some gql, query = Some (AsString kebab_case),
      mutation = Some (AsString kebab_case), subscription = Some (AsString kebab_case),
      fragment = Some (AsString kebab_case)\<rparr>
     ''User'' ''.gql'' [OtherDefinition] = []"
proof -
  have h: "\<forall>d\<in>set [OtherDefinition].
             kind d \<noteq> OPERATION_DEFINITION \<and> kind d \<noteq> FRAGMENT_DEFINITION"
    by simp
  show ?thesis
    using no_definition_only_extension_check [OF h, of convertCase _ "''User''" "''.gql''"]
    by simp
qed

text \<open>
  An example of the rule's documentation, marked incorrect there:
  \<open>fileExtension: '.graphql'\<close>, the file \<open>post.gql\<close> and a type definition. The document
  has no operation and no fragment, and a \<open>MATCH_EXTENSION\<close> report is made.
\<close>

theorem no_definition_counterexample:
  "Document convertCase
     \<lparr>fileExtension = Some graphql, query = None, mutation = None, subscription = None,
      fragment = None\<rparr>
     ''post'' ''.gql'' [OtherDefinition]
   = [\<lparr>loc = REPORT_ON_FIRST_CHARACTER, messageId = MATCH_EXTENSION,
       data = [(''fileExtension'', ''.gql''), (''expectedFileExtension'', ''.graphql'')]\<rparr>]"
  by (simp add: Document_def extension_reports_def style_reports_def governing_node_def
        firstOperation_def firstFragment_def)

subsection \<open>The extension check and the reports of a pass\<close>

text \<open>
  Claim C6. The \<open>MATCH_EXTENSION\<close> reports of a pass are: one report when
  \<open>fileExtension\<close> is configured and differs from the file's extension, with the file's
  extension as \<open>fileExtension\<close> and the configured one as \<open>expectedFileExtension\<close>, and
  none otherwise. This holds for every document and every policy, so the check does not
  depend on the style check.
\<close>

theorem extension_check_exact:
  "filter (\<lambda>r. messageId r = MATCH_EXTENSION)
     (Document conv options filename file_ext definitions) =
     (if fileExtension options \<noteq> None
         \<and> extension_string (the (fileExtension options)) \<noteq> file_ext
      then [\<lparr>loc = REPORT_ON_FIRST_CHARACTER, messageId = MATCH_EXTENSION,
             data = [(''fileExtension'', file_ext),
                     (''expectedFileExtension'',
                        extension_string (the (fileExtension options)))]\<rparr>]
      else [])"
proof -
  have "filter (\<lambda>r. messageId r = MATCH_EXTENSION)
          (Document conv options filename file_ext definitions)
        = extension_reports options file_ext"
    unfolding Document_def
    by (simp only: filter_append filter_extension_reports filter_style_reports append_Nil2)
  then show ?thesis
    by (simp add: extension_reports_def split: option.splits)
qed

text \<open>
  Both checks fire in one pass: \<open>fileExtension: '.graphql'\<close> and \<open>query: 'PascalCase'\<close>
  for \<open>query UserById\<close> in the file \<open>user-by-id.gql\<close>.
\<close>

theorem extension_check_exact_witness:
  "map messageId
     (Document convertCase
        \<lparr>fileExtension = Some graphql, query = Some (AsString PascalCase),
         mutation = None, subscription = None, fragment = None\<rparr>
        ''user-by-id'' ''.gql'' [OperationDefinition QUERY (Some ''UserById'')])
     = [MATCH_EXTENSION, MATCH_STYLE]
   \<and> filter (\<lambda>r. messageId r = MATCH_EXTENSION)
     (Document convertCase
        \<lparr>fileExtension = Some graphql, query = Some (AsString PascalCase),
         mutation = None, subscription = None, fragment = None\<rparr>
        ''user-by-id'' ''.gql'' [OperationDefinition QUERY (Some ''UserById'')])
     = [\<lparr>loc = REPORT_ON_FIRST_CHARACTER, messageId = MATCH_EXTENSION,
         data = [(''fileExtension'', ''.gql''), (''expectedFileExtension'', ''.graphql'')]\<rparr>]"
proof -
  have c: "convertCase PascalCase ''UserById'' = ''UserById''" by code_simp
  have m: "map messageId
     (Document convertCase
        \<lparr>fileExtension = Some graphql, query = Some (AsString PascalCase),
         mutation = None, subscription = None, fragment = None\<rparr>
        ''user-by-id'' ''.gql'' [OperationDefinition QUERY (Some ''UserById'')])
     = [MATCH_EXTENSION, MATCH_STYLE]"
    by (simp add: Document_def extension_reports_def style_reports_def governing_node_def
          firstOperation_def expectedFilename_def expectedExtension_def c)
  show ?thesis
    using m extension_check_exact [of convertCase
        "\<lparr>fileExtension = Some graphql, query = Some (AsString PascalCase),
          mutation = None, subscription = None, fragment = None\<rparr>"
        "''user-by-id''" "''.gql''" "[OperationDefinition QUERY (Some ''UserById'')]"]
    by simp
qed

text \<open>
  Claim C10. One pass makes at most one \<open>MATCH_EXTENSION\<close> report and at most one
  \<open>MATCH_STYLE\<close> report, so at most two reports, and every report is located at the
  first character of the document.
\<close>

theorem Document_at_most_one_report_of_each_kind:
  "length (filter (\<lambda>r. messageId r = MATCH_EXTENSION)
             (Document conv options filename file_ext definitions)) \<le> 1
   \<and> length (filter (\<lambda>r. messageId r = MATCH_STYLE)
             (Document conv options filename file_ext definitions)) \<le> 1
   \<and> length (Document conv options filename file_ext definitions) \<le> 2
   \<and> (\<forall>r \<in> set (Document conv options filename file_ext definitions).
         loc r = REPORT_ON_FIRST_CHARACTER)"
proof -
  have e: "length (extension_reports options file_ext) \<le> 1"
    by (rule length_extension_reports)
  have s: "length (style_reports conv options filename file_ext definitions) \<le> 1"
    by (rule length_style_reports)
  have "length (filter (\<lambda>r. messageId r = MATCH_EXTENSION)
             (Document conv options filename file_ext definitions)) \<le> 1"
    unfolding Document_def using e
    by (simp only: filter_append filter_extension_reports filter_style_reports append_Nil2)
  moreover have "length (filter (\<lambda>r. messageId r = MATCH_STYLE)
             (Document conv options filename file_ext definitions)) \<le> 1"
    unfolding Document_def using s
    by (simp only: filter_append filter_extension_reports filter_style_reports append_Nil)
  moreover have "length (Document conv options filename file_ext definitions) \<le> 2"
    unfolding Document_def using e s by simp
  moreover have "\<forall>r \<in> set (Document conv options filename file_ext definitions).
         loc r = REPORT_ON_FIRST_CHARACTER"
    unfolding Document_def
    by (auto dest: loc_extension_reports loc_style_reports)
  ultimately show ?thesis by blast
qed

text \<open>A pass that makes both reports: two reports, one of each kind, both at the start.\<close>

theorem Document_at_most_one_report_of_each_kind_witness:
  "length (Document convertCase
        \<lparr>fileExtension = Some gql, query = None, mutation = None, subscription = None,
         fragment = Some (AsObject \<lparr>style = None, suffix = Some ''.fragment'', prefix = None\<rparr>)\<rparr>
        ''user-fields'' ''.graphql'' [FragmentDefinition ''user_fields'']) = 2
   \<and> map loc (Document convertCase
        \<lparr>fileExtension = Some gql, query = None, mutation = None, subscription = None,
         fragment = Some (AsObject \<lparr>style = None, suffix = Some ''.fragment'', prefix = None\<rparr>)\<rparr>
        ''user-fields'' ''.graphql'' [FragmentDefinition ''user_fields''])
     = [REPORT_ON_FIRST_CHARACTER, REPORT_ON_FIRST_CHARACTER]"
proof -
  have v: "Document convertCase
        \<lparr>fileExtension = Some gql, query = None, mutation = None, subscription = None,
         fragment = Some (AsObject \<lparr>style = None, suffix = Some ''.fragment'', prefix = None\<rparr>)\<rparr>
        ''user-fields'' ''.graphql'' [FragmentDefinition ''user_fields'']
      = [\<lparr>loc = REPORT_ON_FIRST_CHARACTER, messageId = MATCH_EXTENSION,
          data = [(''fileExtension'', ''.graphql''), (''expectedFileExtension'', ''.gql'')]\<rparr>,
         \<lparr>loc = REPORT_ON_FIRST_CHARACTER, messageId = MATCH_STYLE,
          data = [(''expectedFilename'', ''user-fields.fragment.gql''),
                  (''filename'', ''user-fields.gql'')]\<rparr>]"
    by (simp add: Document_def extension_reports_def style_reports_def governing_node_def
          firstOperation_def firstFragment_def expectedFilename_def expectedExtension_def)
  show ?thesis
    using Document_at_most_one_report_of_each_kind [of convertCase
        "\<lparr>fileExtension = Some gql, query = None, mutation = None, subscription = None,
         fragment = Some (AsObject \<lparr>style = None, suffix = Some ''.fragment'', prefix = None\<rparr>)\<rparr>"
        "''user-fields''" "''.graphql''" "[FragmentDefinition ''user_fields'']"]
    unfolding v by simp
qed

section \<open>Properties of the case conversion\<close>

subsection \<open>Letters and separators\<close>

lemma of_char_to_lower: "is_upper c \<Longrightarrow> of_char (to_lower c) = of_char c + (32::nat)"
  by (simp add: to_lower_def is_upper_def)

lemma of_char_to_upper: "is_lower c \<Longrightarrow> of_char (to_upper c) = of_char c - (32::nat)"
proof -
  assume l: "is_lower c"
  then have "of_char c - (32::nat) < 256" unfolding is_lower_def by arith
  then have "(of_char c - (32::nat)) mod 256 = of_char c - 32" by (rule mod_less)
  with l show ?thesis by (simp add: to_upper_def)
qed

lemma not_upper_to_lower: "\<not> is_upper (to_lower c)"
proof (cases "is_upper c")
  case True
  then have "of_char (to_lower c) = of_char c + (32::nat)" by (rule of_char_to_lower)
  with True show ?thesis by (simp add: is_upper_def)
next
  case False
  then show ?thesis by (simp add: to_lower_def)
qed

lemma not_lower_to_upper: "\<not> is_lower (to_upper c)"
proof (cases "is_lower c")
  case True
  then have "of_char (to_upper c) = of_char c - (32::nat)" by (rule of_char_to_upper)
  with True show ?thesis unfolding is_lower_def by simp arith
next
  case False
  then show ?thesis by (simp add: to_upper_def)
qed

lemma is_separator_code:
  "is_separator c \<longleftrightarrow> of_char c = (95::nat) \<or> of_char c = (45::nat) \<or> of_char c = (46::nat)"
proof -
  have "c = CHR ''_'' \<longleftrightarrow> of_char c = (of_char (CHR ''_'') :: nat)"
    "c = CHR ''-'' \<longleftrightarrow> of_char c = (of_char (CHR ''-'') :: nat)"
    "c = CHR ''.'' \<longleftrightarrow> of_char c = (of_char (CHR ''.'') :: nat)"
    by (simp_all only: of_char_eq_iff)
  then show ?thesis unfolding is_separator_def by simp
qed

lemma not_separator_to_lower: "\<not> is_separator c \<Longrightarrow> \<not> is_separator (to_lower c)"
proof (cases "is_upper c")
  case True
  then have "of_char (to_lower c) = of_char c + (32::nat)" by (rule of_char_to_lower)
  with True show ?thesis by (simp add: is_separator_code is_upper_def)
next
  case False
  assume "\<not> is_separator c"
  with False show ?thesis by (simp add: to_lower_def)
qed

lemma not_separator_to_upper: "\<not> is_separator c \<Longrightarrow> \<not> is_separator (to_upper c)"
proof (cases "is_lower c")
  case True
  then have "of_char (to_upper c) = of_char c - (32::nat)" by (rule of_char_to_upper)
  with True show ?thesis unfolding is_separator_code is_lower_def by simp arith
next
  case False
  assume "\<not> is_separator c"
  with False show ?thesis by (simp add: to_upper_def)
qed

lemma to_lower_idem: "to_lower (to_lower c) = to_lower c"
  using not_upper_to_lower [of c] by (simp add: to_lower_def)

lemma to_upper_idem: "to_upper (to_upper c) = to_upper c"
  using not_lower_to_upper [of c] by (simp add: to_upper_def)

lemma separator_not_letter: "is_separator c \<Longrightarrow> \<not> is_lower c \<and> \<not> is_upper c"
  by (auto simp: is_separator_code is_lower_def is_upper_def)

subsection \<open>Word segmentation\<close>

text \<open>Every word of a name is non-empty and has no separator.\<close>

lemma split_words_wellformed:
  assumes "\<forall>c\<in>set cur. \<not> is_separator c"
    and "w \<in> set (split_words cur s)"
  shows "w \<noteq> [] \<and> (\<forall>c\<in>set w. \<not> is_separator c)"
  using assms
proof (induction s arbitrary: cur)
  case Nil
  then show ?case by (auto simp: flush.simps split: if_splits)
next
  case (Cons c cs)
  show ?case
  proof (cases "is_separator c")
    case True
    with Cons.prems(2) have "w \<in> set (flush cur) \<or> w \<in> set (split_words [] cs)"
      by simp
    then show ?thesis
    proof
      assume "w \<in> set (flush cur)"
      with Cons.prems(1) show ?thesis by (auto simp: flush.simps split: if_splits)
    next
      assume "w \<in> set (split_words [] cs)"
      with Cons.IH [of "[]"] show ?thesis by simp
    qed
  next
    case sep: False
    show ?thesis
    proof (cases "case_boundary cur c cs")
      case True
      with sep Cons.prems(2) have "w \<in> set (flush cur) \<or> w \<in> set (split_words [c] cs)"
        by simp
      then show ?thesis
      proof
        assume "w \<in> set (flush cur)"
        with Cons.prems(1) show ?thesis by (auto simp: flush.simps split: if_splits)
      next
        assume "w \<in> set (split_words [c] cs)"
        with Cons.IH [of "[c]"] sep show ?thesis by simp
      qed
    next
      case False
      with sep Cons.prems(2) have "w \<in> set (split_words (cur @ [c]) cs)" by simp
      with Cons.IH [of "cur @ [c]"] sep Cons.prems(1) show ?thesis by simp
    qed
  qed
qed

lemma words_of_wellformed:
  "w \<in> set (words_of name) \<Longrightarrow> w \<noteq> [] \<and> (\<forall>c\<in>set w. \<not> is_separator c)"
  unfolding words_of_def using split_words_wellformed [of "[]" w name] by simp

text \<open>A run of characters with no separator and no upper-case letter extends the word.\<close>

lemma split_words_no_upper:
  assumes "\<forall>c\<in>set w. \<not> is_separator c \<and> \<not> is_upper c"
  shows "split_words cur (w @ rest) = split_words (cur @ w) rest"
  using assms
proof (induction w arbitrary: cur)
  case Nil
  then show ?case by simp
next
  case (Cons c w)
  then have "split_words cur ((c # w) @ rest) = split_words (cur @ [c]) (w @ rest)"
    by (simp add: case_boundary.simps)
  also have "\<dots> = split_words ((cur @ [c]) @ w) rest"
    using Cons.prems by (intro Cons.IH) simp
  finally show ?case by simp
qed

text \<open>So does a run with no separator, when no lower-case letter is around.\<close>

lemma split_words_no_lower:
  assumes "\<forall>c\<in>set w. \<not> is_separator c \<and> \<not> is_lower c"
    and "\<forall>c\<in>set cur. \<not> is_lower c"
    and "\<forall>c\<in>set rest. \<not> is_lower c"
  shows "split_words cur (w @ rest) = split_words (cur @ w) rest"
  using assms
proof (induction w arbitrary: cur)
  case Nil
  then show ?case by simp
next
  case (Cons c w)
  have "\<not> case_boundary cur c (w @ rest)"
  proof -
    have "cur \<noteq> [] \<Longrightarrow> \<not> is_lower (last cur)"
      using Cons.prems(2) last_in_set by blast
    moreover have "w @ rest \<noteq> [] \<Longrightarrow> \<not> is_lower (hd (w @ rest))"
    proof -
      assume ne: "w @ rest \<noteq> []"
      then have "hd (w @ rest) \<in> set (w @ rest)" by (rule hd_in_set)
      with Cons.prems(1,3) show ?thesis by auto
    qed
    ultimately show ?thesis by (auto simp: case_boundary.simps)
  qed
  with Cons.prems(1)
  have "split_words cur ((c # w) @ rest) = split_words (cur @ [c]) (w @ rest)"
    by simp
  also have "\<dots> = split_words ((cur @ [c]) @ w) rest"
    using Cons.prems by (intro Cons.IH) simp_all
  finally show ?case by simp
qed

lemma set_join: "c \<in> set (join sep ws) \<Longrightarrow> c \<in> set sep \<or> (\<exists>w\<in>set ws. c \<in> set w)"
  by (induction sep ws rule: join.induct) auto

text \<open>Lower-case words joined with a separator are split into the same words.\<close>

lemma split_words_join_lower:
  assumes "is_separator d"
    and "\<forall>w\<in>set ws. w \<noteq> [] \<and> (\<forall>c\<in>set w. \<not> is_separator c \<and> \<not> is_upper c)"
  shows "split_words [] (join [d] ws) = ws"
  using assms(2)
proof (induction "[d]" ws rule: join.induct)
  case 1
  show ?case by (simp add: flush.simps)
next
  case (2 w)
  then have "split_words [] (w @ []) = split_words ([] @ w) []"
    by (intro split_words_no_upper) simp
  with 2 show ?case by (simp add: flush.simps)
next
  case (3 w v ws)
  have "split_words [] (w @ d # join [d] (v # ws)) = split_words ([] @ w) (d # join [d] (v # ws))"
    using 3(2) by (intro split_words_no_upper) simp
  also have "\<dots> = flush w @ split_words [] (join [d] (v # ws))"
    using assms(1) by simp
  also have "\<dots> = w # v # ws"
    using 3 by (simp add: flush.simps)
  finally show ?case by simp
qed

text \<open>Upper-case words joined with \<open>_\<close> are split into the same words.\<close>

lemma split_words_join_upper:
  assumes "is_separator d"
    and "\<forall>w\<in>set ws. w \<noteq> [] \<and> (\<forall>c\<in>set w. \<not> is_separator c \<and> \<not> is_lower c)"
  shows "split_words [] (join [d] ws) = ws"
  using assms(2)
proof (induction "[d]" ws rule: join.induct)
  case 1
  show ?case by (simp add: flush.simps)
next
  case (2 w)
  then have "split_words [] (w @ []) = split_words ([] @ w) []"
    by (intro split_words_no_lower) simp_all
  with 2 show ?case by (simp add: flush.simps)
next
  case (3 w v ws)
  have nl: "\<forall>c\<in>set (d # join [d] (v # ws)). \<not> is_lower c"
  proof
    fix c assume "c \<in> set (d # join [d] (v # ws))"
    then have "c = d \<or> (\<exists>u\<in>set (v # ws). c \<in> set u)"
      using set_join [of c "[d]" "v # ws"] by auto
    then show "\<not> is_lower c"
      using assms(1) 3(2) separator_not_letter by auto
  qed
  have "split_words [] (w @ d # join [d] (v # ws)) = split_words ([] @ w) (d # join [d] (v # ws))"
    using 3(2) nl by (intro split_words_no_lower) simp_all
  also have "\<dots> = flush w @ split_words [] (join [d] (v # ws))"
    using assms(1) by simp
  also have "\<dots> = w # v # ws"
    using 3 by (simp add: flush.simps)
  finally show ?case by simp
qed

lemma lowercased_words_wellformed:
  assumes "w \<in> set (map lowercased (words_of name))"
  shows "w \<noteq> [] \<and> (\<forall>c\<in>set w. \<not> is_separator c \<and> \<not> is_upper c)"
proof -
  from assms obtain u where u: "u \<in> set (words_of name)" and w: "w = lowercased u" by auto
  from words_of_wellformed [OF u] show ?thesis
    unfolding w lowercased_def
    by (auto simp: not_upper_to_lower dest: not_separator_to_lower)
qed

lemma uppercased_words_wellformed:
  assumes "w \<in> set (map uppercased (words_of name))"
  shows "w \<noteq> [] \<and> (\<forall>c\<in>set w. \<not> is_separator c \<and> \<not> is_lower c)"
proof -
  from assms obtain u where u: "u \<in> set (words_of name)" and w: "w = uppercased u" by auto
  from words_of_wellformed [OF u] show ?thesis
    unfolding w uppercased_def
    by (auto simp: not_lower_to_upper dest: not_separator_to_upper)
qed

lemma lowercased_idem: "map lowercased (map lowercased ws) = map lowercased ws"
  by (simp add: lowercased_def to_lower_idem)

lemma uppercased_idem: "map uppercased (map uppercased ws) = map uppercased ws"
  by (simp add: uppercased_def to_upper_idem)

lemma words_of_join_lowercased:
  assumes "is_separator d"
  shows "words_of (join [d] (map lowercased (words_of name))) = map lowercased (words_of name)"
  unfolding words_of_def [of "join [d] (map lowercased (words_of name))"]
  using assms lowercased_words_wellformed [of _ name]
  by (intro split_words_join_lower) blast+

lemma words_of_join_uppercased:
  assumes "is_separator d"
  shows "words_of (join [d] (map uppercased (words_of name))) = map uppercased (words_of name)"
  unfolding words_of_def [of "join [d] (map uppercased (words_of name))"]
  using assms uppercased_words_wellformed [of _ name]
  by (intro split_words_join_upper) blast+

subsection \<open>Idempotence\<close>

text \<open>
  Claim C9, as amended. The conversion is idempotent for the styles that join the words
  with a separator (\<open>snake_case\<close>, \<open>UPPER_CASE\<close>, \<open>kebab-case\<close>) and for
  \<open>matchDocumentStyle\<close>: converting a converted name changes nothing.
\<close>

theorem convertCase_idempotent_joined_styles:
  assumes "s = snake_case \<or> s = UPPER_CASE \<or> s = kebab_case \<or> s = matchDocumentStyle"
  shows "convertCase s (convertCase s name) = convertCase s name"
proof -
  have u: "is_separator CHR ''_''" and h: "is_separator CHR ''-''"
    by (simp_all add: is_separator_def)
  from assms consider "s = snake_case" | "s = UPPER_CASE" | "s = kebab_case"
    | "s = matchDocumentStyle" by blast
  then show ?thesis
  proof cases
    case 1
    show ?thesis unfolding 1 convertCase.simps
      by (simp only: words_of_join_lowercased [OF u] lowercased_idem)
  next
    case 2
    show ?thesis unfolding 2 convertCase.simps
      by (simp only: words_of_join_uppercased [OF u] uppercased_idem)
  next
    case 3
    show ?thesis unfolding 3 convertCase.simps
      by (simp only: words_of_join_lowercased [OF h] lowercased_idem)
  next
    case 4
    show ?thesis unfolding 4 convertCase.simps by (rule refl)
  qed
qed

text \<open>
  The name \<open>userByID\<close> in \<open>UPPER_CASE\<close> is \<open>USER_BY_ID\<close>, and so is \<open>USER_BY_ID\<close>.
\<close>

theorem convertCase_idempotent_joined_styles_witness:
  "convertCase UPPER_CASE ''userByID'' = ''USER_BY_ID''
   \<and> convertCase UPPER_CASE ''USER_BY_ID'' = ''USER_BY_ID''"
proof -
  have h: "UPPER_CASE = snake_case \<or> UPPER_CASE = UPPER_CASE \<or> UPPER_CASE = kebab_case
             \<or> UPPER_CASE = matchDocumentStyle"
    by simp
  have v: "convertCase UPPER_CASE ''userByID'' = ''USER_BY_ID''"
    by code_simp
  show ?thesis
    using convertCase_idempotent_joined_styles [OF h, of "''userByID''"]
    unfolding v by simp
qed

text \<open>
  In \<open>PascalCase\<close> the name \<open>a_b\<close> becomes \<open>AB\<close>, which is one word and becomes \<open>Ab\<close>; in
  \<open>camelCase\<close> the name \<open>a_b_c\<close> becomes \<open>aBC\<close>, which becomes \<open>aBc\<close>.
\<close>

theorem convertCase_not_idempotent_counterexample:
  "convertCase PascalCase (convertCase PascalCase ''a_b'') \<noteq> convertCase PascalCase ''a_b''
   \<and> convertCase camelCase (convertCase camelCase ''a_b_c'') \<noteq> convertCase camelCase ''a_b_c''"
proof -
  have p1: "convertCase PascalCase ''a_b'' = ''AB''" by code_simp
  have p2: "convertCase PascalCase ''AB'' = ''Ab''" by code_simp
  have c1: "convertCase camelCase ''a_b_c'' = ''aBC''" by code_simp
  have c2: "convertCase camelCase ''aBC'' = ''aBc''" by code_simp
  show ?thesis unfolding p1 p2 c1 c2 by simp
qed

end
